theory Spec2Isabelle
  imports Main
begin

section \<open>The host's Date object\<close>

text \<open>
  The application logic (\<^verbatim>\<open>getTimerValues\<close>, \<^verbatim>\<open>applySlider\<close>,
  \<^verbatim>\<open>getActiveMessage\<close>) is written against the JavaScript \<^verbatim>\<open>Date\<close>
  object. A valid Date is its time value, an integral number of milliseconds; the
  accessors are the abstract operations of the language standard (Day, TimeWithinDay,
  DayFromYear, YearFromTime, MonthFromTime, DateFromTime, MakeDay, MakeDate).

  Modelling decisions:
  \<^item> time values are local-time milliseconds: the device's zone is taken to have a constant
    offset from UTC (no daylight-saving change between the instants compared), so that the
    difference of two Date objects is the difference of their local time values;
  \<^item> time values are unbounded integers and quotients are exact (the doubles of the host
    are exact on every input within the range of Date);
  \<^item> \<^verbatim>\<open>YearFromTime\<close>, which the standard gives as "the largest year whose first
    day is not after t", is computed by an estimate corrected by at most one year;
    lemma \<open>YearFromDay_bounds\<close> below proves that this is the year of the standard.
\<close>

definition msPerDay :: int where
  "msPerDay = 86400000"

definition Day :: "int \<Rightarrow> int" where
  "Day t = t div msPerDay"

definition TimeWithinDay :: "int \<Rightarrow> int" where
  "TimeWithinDay t = t mod msPerDay"

definition DaysInYear :: "int \<Rightarrow> int" where
  "DaysInYear y =
     (if y mod 4 \<noteq> 0 then 365
      else if y mod 100 \<noteq> 0 then 366
      else if y mod 400 \<noteq> 0 then 365
      else 366)"

definition DayFromYear :: "int \<Rightarrow> int" where
  "DayFromYear y =
     365 * (y - 1970) + (y - 1969) div 4 - (y - 1901) div 100 + (y - 1601) div 400"

definition YearFromDay :: "int \<Rightarrow> int" where
  "YearFromDay d =
     (let y0 = 1970 + (400 * d) div 146097
      in if d < DayFromYear y0 then y0 - 1
         else if DayFromYear (y0 + 1) \<le> d then y0 + 1
         else y0)"

definition YearFromTime :: "int \<Rightarrow> int" where
  "YearFromTime t = YearFromDay (Day t)"

definition InLeapYear :: "int \<Rightarrow> int" where
  "InLeapYear t = (if DaysInYear (YearFromTime t) = 366 then 1 else 0)"

definition DayWithinYear :: "int \<Rightarrow> int" where
  "DayWithinYear t = Day t - DayFromYear (YearFromTime t)"

text \<open>The number of days of the year that precede month \<open>m\<close> (0 = January).\<close>

definition monthStart :: "int \<Rightarrow> int \<Rightarrow> int" where
  "monthStart m leap =
     (if m = 0 then 0
      else if m = 1 then 31
      else if m = 2 then 59 + leap
      else if m = 3 then 90 + leap
      else if m = 4 then 120 + leap
      else if m = 5 then 151 + leap
      else if m = 6 then 181 + leap
      else if m = 7 then 212 + leap
      else if m = 8 then 243 + leap
      else if m = 9 then 273 + leap
      else if m = 10 then 304 + leap
      else 334 + leap)"

definition MonthFromTime :: "int \<Rightarrow> int" where
  "MonthFromTime t =
     (let d = DayWithinYear t; leap = InLeapYear t
      in if d < 31 then 0
         else if d < 59 + leap then 1
         else if d < 90 + leap then 2
         else if d < 120 + leap then 3
         else if d < 151 + leap then 4
         else if d < 181 + leap then 5
         else if d < 212 + leap then 6
         else if d < 243 + leap then 7
         else if d < 273 + leap then 8
         else if d < 304 + leap then 9
         else if d < 334 + leap then 10
         else 11)"

definition DateFromTime :: "int \<Rightarrow> int" where
  "DateFromTime t = DayWithinYear t - monthStart (MonthFromTime t) (InLeapYear t) + 1"

definition MakeDay :: "int \<Rightarrow> int \<Rightarrow> int \<Rightarrow> int" where
  "MakeDay year month date =
     (let ym = year + month div 12; mn = month mod 12
      in DayFromYear ym + monthStart mn (if DaysInYear ym = 366 then 1 else 0) + date - 1)"

definition MakeDate :: "int \<Rightarrow> int \<Rightarrow> int" where
  "MakeDate day time = day * msPerDay + time"

text \<open>The methods of \<^verbatim>\<open>Date.prototype\<close> that the application calls.\<close>

definition getFullYear :: "int \<Rightarrow> int" where
  "getFullYear t = YearFromTime t"

definition getMonth :: "int \<Rightarrow> int" where
  "getMonth t = MonthFromTime t"

definition getDate :: "int \<Rightarrow> int" where
  "getDate t = DateFromTime t"

definition setFullYear :: "int \<Rightarrow> int \<Rightarrow> int" where
  "setFullYear t y = MakeDate (MakeDay y (MonthFromTime t) (DateFromTime t)) (TimeWithinDay t)"

definition setMonth :: "int \<Rightarrow> int \<Rightarrow> int" where
  "setMonth t m = MakeDate (MakeDay (YearFromTime t) m (DateFromTime t)) (TimeWithinDay t)"

text \<open>\<^verbatim>\<open>today.setHours(0, 0, 0, 0)\<close>: the local midnight that starts the day of \<open>t\<close>.\<close>

definition setHours0 :: "int \<Rightarrow> int" where
  "setHours0 t = MakeDate (Day t) 0"

text \<open>
  The remainder operator \<^verbatim>\<open>%\<close> truncates towards zero: its result has the sign of
  the dividend. \<^verbatim>\<open>Math.floor(a / b)\<close> on integers with \<open>b > 0\<close> is \<open>a div b\<close>.
\<close>

definition js_rem :: "int \<Rightarrow> int \<Rightarrow> int" where
  "js_rem a b = sgn a * (\<bar>a\<bar> mod \<bar>b\<bar>)"

text \<open>
  \<^verbatim>\<open>Math.round(a / b)\<close> for \<open>b > 0\<close>: the nearest integer, a half rounding up.
\<close>

definition js_round_div :: "int \<Rightarrow> int \<Rightarrow> int" where
  "js_round_div a b = (2 * a + b) div (2 * b)"

section \<open>Timers\<close>

text \<open>
  A calendar date as a well-formed \<^verbatim>\<open>"YYYY-MM-DD"\<close> string carries it: the year,
  the month (1 to 12) and the day of the month.
\<close>

record ymd =
  year :: int
  month :: int
  dayOfMonth :: int

text \<open>\<^verbatim>\<open>new Date(s + 'T00:00:00')\<close> for a well-formed date string: local midnight.\<close>

definition parseLocalMidnight :: "ymd \<Rightarrow> int" where
  "parseLocalMidnight d = MakeDate (MakeDay (year d) (month d - 1) (dayOfMonth d)) 0"


datatype timer_mode = CountUp | CountDown


subsection \<open>Messages\<close>

text \<open>
  The \<^verbatim>\<open>triggerDate\<close> field of a stored message: absent or the empty string
  (falsy), a non-empty string that \<^verbatim>\<open>new Date\<close> cannot parse (the Date is
  invalid, its time value NaN), or a well-formed date string.
\<close>

datatype trigger_date = DateMissing | DateUnparseable | DateOf ymd

text \<open>A stored message; \<open>msgText\<close> is its \<^verbatim>\<open>text\<close> field.\<close>

record message =
  msgText :: string
  triggerType :: "string option"
  triggerDate :: trigger_date

text \<open>
  A timer as stored. \<^verbatim>\<open>date\<close> comes from a required date input and is taken
  well-formed; \<^verbatim>\<open>mode\<close> is \<^verbatim>\<open>'countup'\<close> or \<^verbatim>\<open>'countdown'\<close> (the code
  tests for \<^verbatim>\<open>'countup'\<close>); \<^verbatim>\<open>messages\<close> absent reads as the empty list
  (\<^verbatim>\<open>timer.messages || []\<close>).
\<close>

record timer =
  date :: ymd
  mode :: timer_mode
  messages :: "message list"

section \<open>Time calculation: getTimerValues\<close>

record timerValues =
  years :: int
  months :: int
  weeks :: int
  days :: int
  totalDays :: int
  isExpired :: bool

text \<open>
  Both \<^verbatim>\<open>getTimerValues\<close> and the months branch of \<^verbatim>\<open>applySlider\<close> start with
  the same four lines: \<open>now\<close> (the clock reading, here a parameter), \<open>target\<close>,
  \<open>fromDate\<close>, \<open>toDate\<close>.
\<close>

definition target :: "timer \<Rightarrow> int" where
  "target tm = parseLocalMidnight (date tm)"

definition fromDate :: "timer \<Rightarrow> int \<Rightarrow> int" where
  "fromDate tm now = (if mode tm = CountUp then target tm else now)"

definition toDate :: "timer \<Rightarrow> int \<Rightarrow> int" where
  "toDate tm now = (if mode tm = CountUp then now else target tm)"

text \<open>The block \<^verbatim>\<open>// Years\<close>: the value of \<open>years\<close> and the Date \<open>afterYears\<close>.\<close>

definition yearsBlock :: "int \<Rightarrow> int \<Rightarrow> int \<times> int" where
  "yearsBlock fromD toD =
     (let years0 = getFullYear toD - getFullYear fromD;
          afterYears0 = setFullYear fromD (getFullYear fromD + years0)
      in if afterYears0 > toD
         then (years0 - 1, setFullYear afterYears0 (getFullYear afterYears0 - 1))
         else (years0, afterYears0))"

definition getTimerValues :: "timer \<Rightarrow> int \<Rightarrow> timerValues" where
  "getTimerValues tm now =
     (let fromD = fromDate tm now;
          toD = toDate tm now
      in if toD < fromD
         then \<lparr>years = 0, months = 0, weeks = 0, days = 0, totalDays = 0, isExpired = True\<rparr>
         else
           let years1 = fst (yearsBlock fromD toD);
               afterYears = snd (yearsBlock fromD toD);
               months0 = (getFullYear toD - getFullYear afterYears) * 12
                         + (getMonth toD - getMonth afterYears);
               months1 = (if getDate toD < getDate afterYears then months0 - 1 else months0);
               months2 = (if months1 < 0 then 0 else months1);
               afterMonths = setMonth afterYears (getMonth afterYears + months2);
               remainingMs = toD - afterMonths;
               remainingDays = remainingMs div msPerDay
           in \<lparr>years = years1, months = months2,
               weeks = remainingDays div 7, days = js_rem remainingDays 7,
               totalDays = (toD - fromD) div msPerDay, isExpired = False\<rparr>)"

section \<open>The unit slider: applySlider\<close>

record display =
  dispYears :: int
  dispMonths :: int
  dispWeeks :: int
  dispDays :: int

text \<open>
  \<open>sliderPosition\<close> is the module variable, \<open>tm\<close> the active timer that the months
  branch looks up, \<open>now\<close> the clock reading of that branch.
\<close>

definition applySlider :: "int \<Rightarrow> timer \<Rightarrow> int \<Rightarrow> timerValues \<Rightarrow> display" where
  "applySlider sliderPosition tm now vals =
     (if isExpired vals
      then \<lparr>dispYears = 0, dispMonths = 0, dispWeeks = 0, dispDays = 0\<rparr>
      else if sliderPosition = 0
      then \<lparr>dispYears = years vals, dispMonths = months vals,
            dispWeeks = weeks vals, dispDays = days vals\<rparr>
      else if sliderPosition = 1
      then
        let fromD = fromDate tm now;
            toD = toDate tm now;
            totalMonths0 = (getFullYear toD - getFullYear fromD) * 12
                           + (getMonth toD - getMonth fromD);
            totalMonths1 = (if getDate toD < getDate fromD then totalMonths0 - 1
                            else totalMonths0);
            totalMonths = (if totalMonths1 < 0 then 0 else totalMonths1);
            afterMonths = setMonth fromD (getMonth fromD + totalMonths);
            remDays = (toD - afterMonths) div msPerDay
        in \<lparr>dispYears = 0, dispMonths = totalMonths,
            dispWeeks = remDays div 7, dispDays = js_rem remDays 7\<rparr>
      else if sliderPosition = 2
      then \<lparr>dispYears = 0, dispMonths = 0,
            dispWeeks = totalDays vals div 7, dispDays = js_rem (totalDays vals) 7\<rparr>
      else \<lparr>dispYears = 0, dispMonths = 0, dispWeeks = 0, dispDays = totalDays vals\<rparr>)"

text \<open>
  The data path of \<^verbatim>\<open>updateDetailDisplay\<close>: the values of the timer, passed through
  the slider, together with \<open>totalDays\<close> and \<open>isExpired\<close>. This is the breakdown of
  the specification's \<open>decompose (anchorDate, direction, now, pivot)\<close>; one clock reading
  serves both calls.
\<close>

record breakdown =
  bYears :: int
  bMonths :: int
  bWeeks :: int
  bDays :: int
  totalWholeDays :: int
  expired :: bool

definition decompose :: "timer \<Rightarrow> int \<Rightarrow> int \<Rightarrow> breakdown" where
  "decompose tm now pivot =
     (let vals = getTimerValues tm now;
          disp = applySlider pivot tm now vals
      in \<lparr>bYears = dispYears disp, bMonths = dispMonths disp,
          bWeeks = dispWeeks disp, bDays = dispDays disp,
          totalWholeDays = totalDays vals, expired = isExpired vals\<rparr>)"

section \<open>Message display: getActiveMessage\<close>

text \<open>
  The numbers that the message loop compares: \<open>daysUntil\<close> is NaN when the trigger date
  does not parse, \<open>bestDaysUntil\<close> starts as \<^verbatim>\<open>Infinity\<close>. Every comparison with
  NaN is false.
\<close>

datatype jsnum = NaN | Fin int | PosInfinity

fun js_le :: "jsnum \<Rightarrow> jsnum \<Rightarrow> bool" where
  "js_le NaN _ = False"
| "js_le _ NaN = False"
| "js_le _ PosInfinity = True"
| "js_le PosInfinity (Fin _) = False"
| "js_le (Fin a) (Fin b) = (a \<le> b)"

fun js_lt :: "jsnum \<Rightarrow> jsnum \<Rightarrow> bool" where
  "js_lt NaN _ = False"
| "js_lt _ NaN = False"
| "js_lt PosInfinity _ = False"
| "js_lt (Fin _) PosInfinity = True"
| "js_lt (Fin a) (Fin b) = (a < b)"

text \<open>\<^verbatim>\<open>new Date(msg.triggerDate + 'T00:00:00')\<close>, as a time value.\<close>

fun parseTrigger :: "trigger_date \<Rightarrow> jsnum" where
  "parseTrigger (DateOf d) = Fin (parseLocalMidnight d)"
| "parseTrigger _ = NaN"

text \<open>\<^verbatim>\<open>Math.round((triggerDay - today) / (1000 * 60 * 60 * 24))\<close>.\<close>

fun daysUntilOf :: "jsnum \<Rightarrow> int \<Rightarrow> jsnum" where
  "daysUntilOf (Fin triggerDay) today = Fin (js_round_div (triggerDay - today) msPerDay)"
| "daysUntilOf t _ = t"

text \<open>
  The returned object. \<open>triggerLabel\<close> is the formatted trigger date in the source; the
  model keeps the date that is formatted.
\<close>

record active =
  aText :: string
  daysUntil :: jsnum
  triggerLabel :: trigger_date

text \<open>One pass of the loop body over \<open>msg\<close>, on the variables \<open>best\<close> and \<open>bestDaysUntil\<close>.\<close>

definition messageStep :: "int \<Rightarrow> message \<Rightarrow> active option \<times> jsnum \<Rightarrow> active option \<times> jsnum" where
  "messageStep today msg st =
     (if msgText msg = [] then st
      else if triggerType msg = Some ''date'' \<and> triggerDate msg \<noteq> DateMissing
      then
        let triggerDay = parseTrigger (triggerDate msg);
            dUntil = daysUntilOf triggerDay today;
            inWindow = js_le dUntil (Fin 0)
        in if inWindow \<and> js_lt dUntil (snd st)
           then (Some \<lparr>aText = msgText msg, daysUntil = dUntil, triggerLabel = triggerDate msg\<rparr>,
                 dUntil)
           else st
      else st)"

fun messageLoop :: "int \<Rightarrow> message list \<Rightarrow> active option \<times> jsnum \<Rightarrow> active option \<times> jsnum" where
  "messageLoop today [] st = st"
| "messageLoop today (msg # rest) st = messageLoop today rest (messageStep today msg st)"

text \<open>
  \<open>totalDaysArg\<close> is the parameter \<^verbatim>\<open>totalDays\<close>, which the body never reads; \<open>now\<close> is the clock reading
  behind \<^verbatim>\<open>today\<close>.
\<close>

definition getActiveMessage :: "timer \<Rightarrow> int \<Rightarrow> int \<Rightarrow> active option" where
  "getActiveMessage tm totalDaysArg now =
     (if messages tm = [] then None
      else fst (messageLoop (setHours0 now) (messages tm) (None, PosInfinity)))"


section \<open>Notions of the specification\<close>






text \<open>
  The specification's message: well formed when its text is not empty and its trigger
  date parses; active when the whole days from today until its trigger date are at most 0.
\<close>

definition specDaysUntil :: "int \<Rightarrow> ymd \<Rightarrow> int" where
  "specDaysUntil today d = js_round_div (parseLocalMidnight d - today) msPerDay"

definition specWellFormed :: "message \<Rightarrow> bool" where
  "specWellFormed m =
     (msgText m \<noteq> [] \<and> (case triggerDate m of DateOf d \<Rightarrow> True | _ \<Rightarrow> False))"

definition specActive :: "int \<Rightarrow> message \<Rightarrow> bool" where
  "specActive today m =
     (case triggerDate m of DateOf d \<Rightarrow> specDaysUntil today d \<le> 0 | _ \<Rightarrow> False)"

text \<open>The messages that the loop of \<^verbatim>\<open>getActiveMessage\<close> does not pass over.\<close>

definition eligible :: "int \<Rightarrow> message \<Rightarrow> bool" where
  "eligible today m =
     (specWellFormed m \<and> triggerType m = Some ''date'' \<and> specActive today m)"

text \<open>
  The \<open>daysUntil\<close> that the loop computes for a message, and the object that it builds
  when it selects the message.
\<close>

definition messageDaysUntil :: "int \<Rightarrow> message \<Rightarrow> jsnum" where
  "messageDaysUntil today m = daysUntilOf (parseTrigger (triggerDate m)) today"

definition selection :: "int \<Rightarrow> message \<Rightarrow> active" where
  "selection today m =
     \<lparr>aText = msgText m, daysUntil = messageDaysUntil today m, triggerLabel = triggerDate m\<rparr>"

text \<open>
  The loop invariant: after the messages \<open>seen\<close>, either none of them was eligible and the
  variables are as initialised, or \<open>best\<close> is built from an eligible message among them
  whose \<open>daysUntil\<close> no other eligible one undercuts.
\<close>

definition loopInv :: "int \<Rightarrow> message list \<Rightarrow> active option \<times> jsnum \<Rightarrow> bool" where
  "loopInv today seen st =
     ((st = (None, PosInfinity) \<and> \<not> (\<exists>m \<in> set seen. eligible today m))
      \<or> (\<exists>m \<in> set seen. eligible today m
            \<and> st = (Some (selection today m), messageDaysUntil today m)
            \<and> (\<forall>m' \<in> set seen. eligible today m'
                  \<longrightarrow> js_le (messageDaysUntil today m) (messageDaysUntil today m'))))"

section \<open>Inputs of the examples\<close>

text \<open>The instant \<open>ms\<close> milliseconds after local midnight of the date \<open>y\<close>-\<open>m\<close>-\<open>d\<close>.\<close>

definition instant :: "int \<Rightarrow> int \<Rightarrow> int \<Rightarrow> int \<Rightarrow> int" where
  "instant y m d ms = MakeDate (MakeDay y (m - 1) d) ms"

definition noon :: int where
  "noon = 43200000"

text \<open>A timer without messages.\<close>

definition plainTimer :: "int \<Rightarrow> int \<Rightarrow> int \<Rightarrow> timer_mode \<Rightarrow> timer" where
  "plainTimer y m d md =
     \<lparr>date = \<lparr>year = y, month = m, dayOfMonth = d\<rparr>, mode = md, messages = []\<rparr>"

text \<open>The message that \<^verbatim>\<open>addMessageToForm\<close> stores for a text and a chosen date.\<close>

definition dateMessage :: "string \<Rightarrow> int \<Rightarrow> int \<Rightarrow> int \<Rightarrow> message" where
  "dateMessage s y m d =
     \<lparr>msgText = s, triggerType = Some ''date'',
      triggerDate = DateOf \<lparr>year = y, month = m, dayOfMonth = d\<rparr>\<rparr>"

text \<open>A timer counting up from 2020-01-01 that carries the messages \<open>ms\<close>.\<close>

definition timerWith :: "message list \<Rightarrow> timer" where
  "timerWith ms =
     \<lparr>date = \<lparr>year = 2020, month = 1, dayOfMonth = 1\<rparr>, mode = CountUp, messages = ms\<rparr>"


text \<open>A stored message that has a text and a date but no \<^verbatim>\<open>triggerType\<close>.\<close>

definition untypedMessage :: message where
  "untypedMessage =
     \<lparr>msgText = ''X'', triggerType = None,
      triggerDate = DateOf \<lparr>year = 2024, month = 1, dayOfMonth = 1\<rparr>\<rparr>"

section \<open>The calendar operations\<close>

lemma div_bounds:
  fixes x c :: int
  assumes "0 < c"
  shows "c * (x div c) \<le> x" and "x < c * (x div c) + c"
proof -
  have "x = c * (x div c) + x mod c" by simp
  moreover have "0 \<le> x mod c" "x mod c < c" using assms by simp_all
  ultimately show "c * (x div c) \<le> x" and "x < c * (x div c) + c" by linarith+
qed

lemma DayFromYear_estimate_low:
  assumes "146097 * q \<le> 400 * d"
  shows "DayFromYear (1970 + q - 1) \<le> d"
proof -
  define a where "a = (1970 + q - 1 - 1969) div 4"
  define b where "b = (1970 + q - 1 - 1901) div 100"
  define c where "c = (1970 + q - 1 - 1601) div 400"
  have "4 * a \<le> 1970 + q - 1 - 1969"
    unfolding a_def by (rule div_bounds) simp
  moreover have "1970 + q - 1 - 1901 < 100 * b + 100"
    unfolding b_def by (rule div_bounds) simp
  moreover have "400 * c \<le> 1970 + q - 1 - 1601"
    unfolding c_def by (rule div_bounds) simp
  moreover have "DayFromYear (1970 + q - 1) = 365 * q - 365 + a - b + c"
    by (simp add: DayFromYear_def a_def b_def c_def)
  ultimately show ?thesis using assms by linarith
qed

lemma DayFromYear_estimate_high:
  assumes "400 * d < 146097 * q + 146097"
  shows "d < DayFromYear (1970 + q + 2)"
proof -
  define a where "a = (1970 + q + 2 - 1969) div 4"
  define b where "b = (1970 + q + 2 - 1901) div 100"
  define c where "c = (1970 + q + 2 - 1601) div 400"
  have "1970 + q + 2 - 1969 < 4 * a + 4"
    unfolding a_def by (rule div_bounds) simp
  moreover have "100 * b \<le> 1970 + q + 2 - 1901"
    unfolding b_def by (rule div_bounds) simp
  moreover have "1970 + q + 2 - 1601 < 400 * c + 400"
    unfolding c_def by (rule div_bounds) simp
  moreover have "DayFromYear (1970 + q + 2) = 365 * q + 730 + a - b + c"
    by (simp add: DayFromYear_def a_def b_def c_def)
  ultimately show ?thesis using assms by linarith
qed

text \<open>
  \<open>YearFromDay d\<close> is the year of the standard: its first day is not after \<open>d\<close>, the
  first day of the next year is.
\<close>

lemma YearFromDay_bounds:
  "DayFromYear (YearFromDay d) \<le> d \<and> d < DayFromYear (YearFromDay d + 1)"
proof -
  define q where "q = (400 * d) div 146097"
  have lo: "146097 * q \<le> 400 * d" and hi: "400 * d < 146097 * q + 146097"
    unfolding q_def by (rule div_bounds, simp)+
  have l: "DayFromYear (1970 + q - 1) \<le> d" using lo by (rule DayFromYear_estimate_low)
  have h: "d < DayFromYear (1970 + q + 2)" using hi by (rule DayFromYear_estimate_high)
  have e: "1970 + q + 1 + 1 = 1970 + q + 2" "1970 + q - 1 + 1 = 1970 + q" by simp_all
  show ?thesis
    unfolding YearFromDay_def q_def [symmetric] Let_def
    using l h by (simp add: e)
qed

lemma DayFromYear_mono_strict:
  assumes "y < y'"
  shows "DayFromYear y < DayFromYear y'"
proof -
  define a where "a = (y - 1969) div 4"
  define b where "b = (y - 1901) div 100"
  define c where "c = (y - 1601) div 400"
  define a' where "a' = (y' - 1969) div 4"
  define b' where "b' = (y' - 1901) div 100"
  define c' where "c' = (y' - 1601) div 400"
  have "4 * a \<le> y - 1969" unfolding a_def by (rule div_bounds) simp
  moreover have "y' - 1969 < 4 * a' + 4" unfolding a'_def by (rule div_bounds) simp
  moreover have "y - 1901 < 100 * b + 100" unfolding b_def by (rule div_bounds) simp
  moreover have "100 * b' \<le> y' - 1901" unfolding b'_def by (rule div_bounds) simp
  moreover have "400 * c \<le> y - 1601" unfolding c_def by (rule div_bounds) simp
  moreover have "y' - 1601 < 400 * c' + 400" unfolding c'_def by (rule div_bounds) simp
  moreover have "DayFromYear y = 365 * y - 719050 + a - b + c"
    by (simp add: DayFromYear_def a_def b_def c_def)
  moreover have "DayFromYear y' = 365 * y' - 719050 + a' - b' + c'"
    by (simp add: DayFromYear_def a'_def b'_def c'_def)
  ultimately show ?thesis using assms by linarith
qed

lemma YearFromDay_mono:
  assumes "d \<le> d'"
  shows "YearFromDay d \<le> YearFromDay d'"
proof (rule ccontr)
  assume "\<not> YearFromDay d \<le> YearFromDay d'"
  then have "YearFromDay d' + 1 \<le> YearFromDay d" by simp
  then have "DayFromYear (YearFromDay d' + 1) \<le> DayFromYear (YearFromDay d)"
    using DayFromYear_mono_strict [of "YearFromDay d' + 1" "YearFromDay d"]
    by (cases "YearFromDay d' + 1 = YearFromDay d") simp_all
  with YearFromDay_bounds [of d] YearFromDay_bounds [of d'] assms show False by linarith
qed



lemma MonthFromTime_range: "0 \<le> MonthFromTime t \<and> MonthFromTime t \<le> 11"
  by (simp add: MonthFromTime_def Let_def)

text \<open>The fields of a Date make its day again.\<close>

lemma MakeDay_of_fields: "MakeDay (YearFromTime t) (MonthFromTime t) (DateFromTime t) = Day t"
proof -
  have r: "0 \<le> MonthFromTime t" "MonthFromTime t < 12"
    using MonthFromTime_range [of t] by simp_all
  then have "MonthFromTime t div 12 = 0" "MonthFromTime t mod 12 = MonthFromTime t"
    by simp_all
  then show ?thesis
    by (simp add: MakeDay_def DateFromTime_def DayWithinYear_def InLeapYear_def)
qed


lemma js_rem_nonneg: "0 \<le> a \<Longrightarrow> js_rem a 7 = a mod 7"
  by (cases "a = 0") (simp_all add: js_rem_def)

section \<open>Properties of the decomposition\<close>

lemma decompose_expired: "expired (decompose tm now pivot) = (toDate tm now < fromDate tm now)"
  by (simp add: decompose_def Let_def getTimerValues_def)


lemma decompose_when_expired:
  "toDate tm now < fromDate tm now \<Longrightarrow>
   decompose tm now pivot =
     \<lparr>bYears = 0, bMonths = 0, bWeeks = 0, bDays = 0, totalWholeDays = 0, expired = True\<rparr>"
  by (simp add: decompose_def Let_def getTimerValues_def applySlider_def)

lemma target_mode_update: "target (tm\<lparr>mode := md\<rparr>) = target tm"
  by (simp add: target_def)

lemma setFullYear_same: "setFullYear t (getFullYear t) = t"
  by (simp add: setFullYear_def getFullYear_def MakeDay_of_fields MakeDate_def Day_def
      TimeWithinDay_def)

lemma getFullYear_mono: "a \<le> b \<Longrightarrow> getFullYear a \<le> getFullYear b"
  by (simp add: getFullYear_def YearFromTime_def Day_def msPerDay_def YearFromDay_mono
      zdiv_mono1)

lemma yearsBlock_nonneg:
  assumes "f \<le> t"
  shows "0 \<le> fst (yearsBlock f t)"
proof (cases "getFullYear t = getFullYear f")
  case True
  then show ?thesis
    using assms by (simp add: yearsBlock_def Let_def setFullYear_same)
next
  case False
  with getFullYear_mono [OF assms] have "1 \<le> getFullYear t - getFullYear f" by simp
  then show ?thesis by (simp add: yearsBlock_def Let_def)
qed

text \<open>
  The years and the months of a breakdown are never negative, at any pivot: the years block
  takes back at most the one year that it added, and the months are clamped.
\<close>

lemma years_months_never_negative:
  "0 \<le> bYears (decompose tm now pivot) \<and> 0 \<le> bMonths (decompose tm now pivot)"
proof (cases "toDate tm now < fromDate tm now")
  case True
  then show ?thesis by (simp add: decompose_when_expired)
next
  case False
  then have "0 \<le> fst (yearsBlock (fromDate tm now) (toDate tm now))"
    by (simp add: yearsBlock_nonneg)
  with False show ?thesis
    by (simp add: decompose_def getTimerValues_def applySlider_def Let_def)
qed


text \<open>
  Claim C2. Every field of the breakdown is to be a non-negative integer, the remainder of
  weeks and days included, for instance counting up from 2023-01-31 early in March 2023.
  At noon of 2023-03-01 the code computes one whole month, advances January 31 by it with
  \<^verbatim>\<open>setMonth\<close>, which yields March 3, and reports the remainder from there: minus
  one week and minus two days.
\<close>

theorem getTimerValues_negative_remainder:
  "decompose (plainTimer 2023 1 31 CountUp) (instant 2023 3 1 noon) 0 =
     \<lparr>bYears = 0, bMonths = 1, bWeeks = - 1, bDays = - 2,
      totalWholeDays = 29, expired = False\<rparr>"
  by code_simp




text \<open>
  Claim C4. With \<open>from\<close> and \<open>to\<close> assigned by the direction (counting up: the anchor's
  midnight to now; counting down: now to the anchor's midnight), the breakdown is the
  all-zero one with the expired flag exactly when \<open>to\<close> precedes \<open>from\<close>; the two
  directions swap the roles of \<open>from\<close> and \<open>to\<close>, so counting up is expired exactly
  when now precedes the anchor and counting down exactly when the anchor precedes now.
\<close>

theorem expiry_iff_to_before_from:
  "expired (decompose tm now pivot) = (toDate tm now < fromDate tm now)
   \<and> (decompose tm now pivot =
        \<lparr>bYears = 0, bMonths = 0, bWeeks = 0, bDays = 0, totalWholeDays = 0, expired = True\<rparr>)
      = (toDate tm now < fromDate tm now)
   \<and> fromDate (tm\<lparr>mode := CountUp\<rparr>) now = target tm
   \<and> toDate (tm\<lparr>mode := CountUp\<rparr>) now = now
   \<and> fromDate (tm\<lparr>mode := CountDown\<rparr>) now = toDate (tm\<lparr>mode := CountUp\<rparr>) now
   \<and> toDate (tm\<lparr>mode := CountDown\<rparr>) now = fromDate (tm\<lparr>mode := CountUp\<rparr>) now
   \<and> expired (decompose (tm\<lparr>mode := CountUp\<rparr>) now pivot) = (now < target tm)
   \<and> expired (decompose (tm\<lparr>mode := CountDown\<rparr>) now pivot) = (target tm < now)"
proof -
  have z: "(decompose tm now pivot =
        \<lparr>bYears = 0, bMonths = 0, bWeeks = 0, bDays = 0, totalWholeDays = 0, expired = True\<rparr>)
      = (toDate tm now < fromDate tm now)"
  proof
    assume "decompose tm now pivot =
        \<lparr>bYears = 0, bMonths = 0, bWeeks = 0, bDays = 0, totalWholeDays = 0, expired = True\<rparr>"
    then have "expired (decompose tm now pivot)" by simp
    then show "toDate tm now < fromDate tm now" by (simp add: decompose_expired)
  next
    assume "toDate tm now < fromDate tm now"
    then show "decompose tm now pivot =
        \<lparr>bYears = 0, bMonths = 0, bWeeks = 0, bDays = 0, totalWholeDays = 0, expired = True\<rparr>"
      by (rule decompose_when_expired)
  qed
  show ?thesis
    using z by (simp add: decompose_expired fromDate_def toDate_def target_mode_update)
qed

theorem expiry_iff_to_before_from_witness:
  "target (plainTimer 2024 1 15 CountUp) < instant 2024 1 15 noon
   \<and> expired (decompose ((plainTimer 2024 1 15 CountUp)\<lparr>mode := CountDown\<rparr>)
                (instant 2024 1 15 noon) 0)
   \<and> \<not> expired (decompose ((plainTimer 2024 1 15 CountUp)\<lparr>mode := CountUp\<rparr>)
                (instant 2024 1 15 noon) 0)"
proof -
  have h: "target (plainTimer 2024 1 15 CountUp) < instant 2024 1 15 noon"
    by code_simp
  from expiry_iff_to_before_from [of "plainTimer 2024 1 15 CountUp" "instant 2024 1 15 noon" 0] h
  show ?thesis by simp
qed

text \<open>
  Claim C5. For a breakdown that is not expired: at pivot Days (3) years, months and weeks
  are 0 and days is the total of whole days computed at pivot Years (0); at pivot Weeks (2)
  years and months are 0, weeks is that total div 7 and days is that total mod 7.
\<close>

theorem pivot_days_weeks_consistent:
  assumes "\<not> expired (decompose tm now 0)"
  shows "decompose tm now 3 =
           \<lparr>bYears = 0, bMonths = 0, bWeeks = 0,
            bDays = totalWholeDays (decompose tm now 0),
            totalWholeDays = totalWholeDays (decompose tm now 0), expired = False\<rparr>
         \<and> decompose tm now 2 =
           \<lparr>bYears = 0, bMonths = 0,
            bWeeks = totalWholeDays (decompose tm now 0) div 7,
            bDays = totalWholeDays (decompose tm now 0) mod 7,
            totalWholeDays = totalWholeDays (decompose tm now 0), expired = False\<rparr>"
proof -
  from assms have ne: "\<not> toDate tm now < fromDate tm now"
    by (simp add: decompose_expired)
  then have "0 \<le> (toDate tm now - fromDate tm now) div msPerDay"
    by (simp add: msPerDay_def pos_imp_zdiv_nonneg_iff)
  with ne have nn: "0 \<le> totalDays (getTimerValues tm now)"
    by (simp add: getTimerValues_def Let_def)
  from ne have ni: "\<not> isExpired (getTimerValues tm now)"
    by (simp add: getTimerValues_def Let_def)
  show ?thesis
    using ni nn by (simp add: decompose_def Let_def applySlider_def js_rem_nonneg)
qed

theorem pivot_days_weeks_consistent_witness:
  "\<not> expired (decompose (plainTimer 2024 2 29 CountUp) (instant 2025 3 1 noon) 0)
   \<and> totalWholeDays (decompose (plainTimer 2024 2 29 CountUp) (instant 2025 3 1 noon) 0) = 366
   \<and> decompose (plainTimer 2024 2 29 CountUp) (instant 2025 3 1 noon) 3 =
       \<lparr>bYears = 0, bMonths = 0, bWeeks = 0, bDays = 366,
        totalWholeDays = 366, expired = False\<rparr>
   \<and> decompose (plainTimer 2024 2 29 CountUp) (instant 2025 3 1 noon) 2 =
       \<lparr>bYears = 0, bMonths = 0, bWeeks = 52, bDays = 2,
        totalWholeDays = 366, expired = False\<rparr>"
proof -
  have h: "\<not> expired (decompose (plainTimer 2024 2 29 CountUp) (instant 2025 3 1 noon) 0)"
    by code_simp
  have t: "totalWholeDays (decompose (plainTimer 2024 2 29 CountUp) (instant 2025 3 1 noon) 0)
           = 366"
    by code_simp
  from pivot_days_weeks_consistent [OF h] h t show ?thesis by simp
qed














section \<open>Properties of the message loop\<close>

lemma messageStep_skip:
  "\<not> eligible today m \<Longrightarrow> messageStep today m st = st"
  by (cases "triggerDate m")
     (auto simp add: messageStep_def eligible_def specWellFormed_def specActive_def
        specDaysUntil_def Let_def)

lemma messageStep_eligible:
  assumes "eligible today m"
  shows "messageStep today m st =
          (if js_lt (messageDaysUntil today m) (snd st)
           then (Some (selection today m), messageDaysUntil today m)
           else st)"
  using assms
  by (cases "triggerDate m")
     (simp_all add: messageStep_def eligible_def specWellFormed_def specActive_def
        specDaysUntil_def messageDaysUntil_def selection_def Let_def)

lemma eligible_days:
  assumes "eligible today m"
  obtains k where "messageDaysUntil today m = Fin k" and "k \<le> 0"
  using assms
  by (cases "triggerDate m")
     (simp_all add: eligible_def specWellFormed_def specActive_def specDaysUntil_def
        messageDaysUntil_def)

lemma daysUntil_selection: "daysUntil (selection today m) = messageDaysUntil today m"
  by (simp add: selection_def)

lemma messageLoop_append:
  "messageLoop today (xs @ ys) st = messageLoop today ys (messageLoop today xs st)"
  by (induction xs arbitrary: st) simp_all

lemma messageLoop_filter:
  assumes "\<And>m st. m \<in> set ms \<Longrightarrow> \<not> P m \<Longrightarrow> messageStep today m st = st"
  shows "messageLoop today (filter P ms) st = messageLoop today ms st"
  using assms by (induction ms arbitrary: st) simp_all

lemma loopInv_step:
  assumes "loopInv today seen st"
  shows "loopInv today (seen @ [m]) (messageStep today m st)"
proof (cases "eligible today m")
  case False
  with assms show ?thesis
    by (auto simp add: loopInv_def messageStep_skip)
next
  case True
  then obtain k where k: "messageDaysUntil today m = Fin k"
    by (rule eligible_days)
  from assms consider
    (none) "st = (None, PosInfinity)" "\<not> (\<exists>m \<in> set seen. eligible today m)"
    | (some) b where "b \<in> set seen" "eligible today b"
        "st = (Some (selection today b), messageDaysUntil today b)"
        "\<forall>m' \<in> set seen. eligible today m'
            \<longrightarrow> js_le (messageDaysUntil today b) (messageDaysUntil today m')"
    by (auto simp add: loopInv_def)
  then show ?thesis
  proof cases
    case none
    with True k show ?thesis
      by (auto simp add: loopInv_def messageStep_eligible)
  next
    case some
    from some(2) obtain j where j: "messageDaysUntil today b = Fin j"
      by (rule eligible_days)
    have le: "js_le (Fin j) (messageDaysUntil today m') \<Longrightarrow> k < j
              \<Longrightarrow> js_le (Fin k) (messageDaysUntil today m')" for m'
      by (cases "messageDaysUntil today m'") simp_all
    show ?thesis
    proof (cases "k < j")
      case True
      with \<open>eligible today m\<close> some k j le show ?thesis
        by (auto simp add: loopInv_def messageStep_eligible)
    next
      case False
      with \<open>eligible today m\<close> some k j show ?thesis
        unfolding loopInv_def
        by (intro disjI2 bexI [of _ b]) (auto simp add: messageStep_eligible)
    qed
  qed
qed

lemma loopInv_loop:
  "loopInv today seen st \<Longrightarrow> loopInv today (seen @ ms) (messageLoop today ms st)"
proof (induction ms arbitrary: seen st)
  case Nil
  then show ?case by simp
next
  case (Cons m ms)
  from Cons.IH [OF loopInv_step [OF Cons.prems, of m]] show ?case by simp
qed

lemma loopInv_result:
  "loopInv today ms (messageLoop today ms (None, PosInfinity))"
proof -
  have "loopInv today [] (None, PosInfinity)"
    by (simp add: loopInv_def)
  from loopInv_loop [OF this, of ms] show ?thesis by simp
qed

lemma getActiveMessage_None_iff:
  "getActiveMessage tm td now = None
   \<longleftrightarrow> \<not> (\<exists>m \<in> set (messages tm). eligible (setHours0 now) m)"
  using loopInv_result [of "setHours0 now" "messages tm"]
  by (auto simp add: getActiveMessage_def loopInv_def)

lemma getActiveMessage_filter:
  assumes "\<And>m st. \<not> P m \<Longrightarrow> messageStep (setHours0 now) m st = st"
  shows "getActiveMessage (tm\<lparr>messages := filter P (messages tm)\<rparr>) td now
         = getActiveMessage tm td now"
proof -
  have l: "messageLoop (setHours0 now) (filter P (messages tm)) st
           = messageLoop (setHours0 now) (messages tm) st" for st
    by (rule messageLoop_filter) (rule assms)
  show ?thesis
  proof (cases "filter P (messages tm) = []")
    case True
    with l [of "(None, PosInfinity)"] show ?thesis
      by (simp add: getActiveMessage_def)
  next
    case False
    then have "messages tm \<noteq> []" by auto
    with False l show ?thesis by (simp add: getActiveMessage_def)
  qed
qed

text \<open>
  What the loop returns: the object built from an eligible message whose \<open>daysUntil\<close> is
  the smallest among the eligible messages, the one triggered longest ago.
\<close>

lemma getActiveMessage_smallest:
  assumes "getActiveMessage tm td now = Some r"
  shows "\<exists>m \<in> set (messages tm). eligible (setHours0 now) m
           \<and> r = selection (setHours0 now) m
           \<and> (\<forall>m' \<in> set (messages tm). eligible (setHours0 now) m'
                 \<longrightarrow> js_le (daysUntil r) (messageDaysUntil (setHours0 now) m'))"
proof -
  note loopInv_result [of "setHours0 now" "messages tm"]
  moreover from assms
  have "fst (messageLoop (setHours0 now) (messages tm) (None, PosInfinity)) = Some r"
    by (simp add: getActiveMessage_def split: if_splits)
  ultimately obtain m where m: "m \<in> set (messages tm)" "eligible (setHours0 now) m"
    "r = selection (setHours0 now) m"
    "\<forall>m' \<in> set (messages tm). eligible (setHours0 now) m'
        \<longrightarrow> js_le (messageDaysUntil (setHours0 now) m) (messageDaysUntil (setHours0 now) m')"
    by (auto simp add: loopInv_def)
  then show ?thesis
    by (intro bexI [of _ m]) (simp_all add: daysUntil_selection)
qed

text \<open>
  Messages of equal \<open>daysUntil\<close> never replace each other: when every eligible message
  has the \<open>daysUntil\<close> of the first eligible one, the first eligible one is returned.
\<close>

lemma messageLoop_ties:
  assumes "\<forall>m \<in> set ms. eligible today m \<longrightarrow> messageDaysUntil today m = Fin k"
  shows "messageLoop today ms (Some b, Fin k) = (Some b, Fin k)"
  using assms
proof (induction ms)
  case Nil
  then show ?case by simp
next
  case (Cons m ms)
  then show ?case
    by (cases "eligible today m") (simp_all add: messageStep_skip messageStep_eligible)
qed

lemma getActiveMessage_ties:
  assumes "eligible (setHours0 now) m"
    and "\<forall>p \<in> set pre. \<not> eligible (setHours0 now) p"
    and "\<forall>m' \<in> set rest. eligible (setHours0 now) m'
           \<longrightarrow> messageDaysUntil (setHours0 now) m' = messageDaysUntil (setHours0 now) m"
    and "messages tm = pre @ m # rest"
  shows "getActiveMessage tm td now = Some (selection (setHours0 now) m)"
proof -
  from assms(1) obtain k where k: "messageDaysUntil (setHours0 now) m = Fin k"
    by (rule eligible_days)
  have pre: "messageLoop (setHours0 now) pre st = st" for st
    using assms(2) by (induction pre arbitrary: st) (simp_all add: messageStep_skip)
  have "messageLoop (setHours0 now) (pre @ m # rest) (None, PosInfinity)
        = messageLoop (setHours0 now) rest (Some (selection (setHours0 now) m), Fin k)"
    using assms(1) k
    by (simp add: messageLoop_append pre messageStep_eligible)
  then show ?thesis
    using messageLoop_ties [of rest "setHours0 now" k "selection (setHours0 now) m"] assms(3,4) k
    by (simp add: getActiveMessage_def)
qed

text \<open>
  Claim C1. Among the active messages the resolver is to return the one with the largest
  \<open>daysUntil\<close>, the most recently triggered: "B" (\<open>daysUntil\<close> -5) for the messages "A" of
  2024-01-01 and "B" of 2024-01-10 on 2024-01-15. The loop replaces \<open>best\<close> only by a
  message whose \<open>daysUntil\<close> is smaller, so on that input the code returns "A", whose
  \<open>daysUntil\<close> is -14.
\<close>

theorem getActiveMessage_returns_stale_message:
  "getActiveMessage
     (timerWith [dateMessage ''A'' 2024 1 1, dateMessage ''B'' 2024 1 10]) 0
     (instant 2024 1 15 noon)
   = Some \<lparr>aText = ''A'', daysUntil = Fin (- 14),
           triggerLabel = DateOf \<lparr>year = 2024, month = 1, dayOfMonth = 1\<rparr>\<rparr>"
  by code_simp

text \<open>
  Claim C8, as stated: the result is none exactly when no well-formed message (a text that
  is not empty, a trigger date that parses) is active. A stored message with a text and the
  trigger date 2024-01-01 but without \<^verbatim>\<open>triggerType\<close> is well formed and active on
  2024-01-15, and the result is none.
\<close>

theorem resolver_skips_untyped_message:
  "getActiveMessage (timerWith [untypedMessage]) 0 (instant 2024 1 15 noon) = None
   \<and> specWellFormed untypedMessage
   \<and> specActive (setHours0 (instant 2024 1 15 noon)) untypedMessage"
  by code_simp

text \<open>
  Claim C8, amended: the resolver returns a value on every list of messages (the model is a
  total function with no error branch: a trigger date that does not parse makes
  \<open>daysUntil\<close> NaN, which fails the window test). Every message with an empty text or a
  missing or unparseable trigger date is skipped: the result is the result on the list
  without those messages. The result is none exactly when no message with a non-empty
  text, the trigger type \<^verbatim>\<open>'date'\<close> and a parseable trigger date is active; in
  particular it is none when no message is active, as when today precedes every trigger
  date.
\<close>

theorem resolver_none_iff_no_eligible:
  "(getActiveMessage tm td now = None)
     = (\<not> (\<exists>m \<in> set (messages tm). eligible (setHours0 now) m))
   \<and> getActiveMessage (tm\<lparr>messages := filter specWellFormed (messages tm)\<rparr>) td now
     = getActiveMessage tm td now
   \<and> ((\<forall>m \<in> set (messages tm). \<not> specActive (setHours0 now) m)
        \<longrightarrow> getActiveMessage tm td now = None)"
proof (intro conjI impI)
  show "(getActiveMessage tm td now = None)
     = (\<not> (\<exists>m \<in> set (messages tm). eligible (setHours0 now) m))"
    by (rule getActiveMessage_None_iff)
next
  show "getActiveMessage (tm\<lparr>messages := filter specWellFormed (messages tm)\<rparr>) td now
     = getActiveMessage tm td now"
    by (rule getActiveMessage_filter) (simp add: messageStep_skip eligible_def)
next
  assume "\<forall>m \<in> set (messages tm). \<not> specActive (setHours0 now) m"
  then show "getActiveMessage tm td now = None"
    by (simp add: getActiveMessage_None_iff eligible_def)
qed

theorem resolver_none_iff_no_eligible_witness:
  "messages (timerWith [dateMessage ''A'' 2024 1 20, dateMessage ''B'' 2024 2 1])
     = [dateMessage ''A'' 2024 1 20, dateMessage ''B'' 2024 2 1]
   \<and> \<not> specActive (setHours0 (instant 2024 1 15 noon)) (dateMessage ''A'' 2024 1 20)
   \<and> \<not> specActive (setHours0 (instant 2024 1 15 noon)) (dateMessage ''B'' 2024 2 1)
   \<and> getActiveMessage (timerWith [dateMessage ''A'' 2024 1 20, dateMessage ''B'' 2024 2 1]) 0
       (instant 2024 1 15 noon) = None"
proof -
  have m: "messages (timerWith [dateMessage ''A'' 2024 1 20, dateMessage ''B'' 2024 2 1])
     = [dateMessage ''A'' 2024 1 20, dateMessage ''B'' 2024 2 1]"
    by (simp add: timerWith_def)
  have a: "\<not> specActive (setHours0 (instant 2024 1 15 noon)) (dateMessage ''A'' 2024 1 20)"
    by code_simp
  have b: "\<not> specActive (setHours0 (instant 2024 1 15 noon)) (dateMessage ''B'' 2024 2 1)"
    by code_simp
  from resolver_none_iff_no_eligible
         [of "timerWith [dateMessage ''A'' 2024 1 20, dateMessage ''B'' 2024 2 1]" 0
             "instant 2024 1 15 noon"] m a b
  show ?thesis by simp
qed

text \<open>
  Claim C9. When two or more active messages share the most recent trigger date, the
  resolver is to return the earliest of them in the input. For the messages "C" of
  2024-01-14, "A" of 2024-01-15 and "B" of 2024-01-15 on 2024-01-15, "A" and "B" share the
  most recent trigger date; the code returns "C".
\<close>

theorem getActiveMessage_tie_behind_stale_message:
  "getActiveMessage
     (timerWith [dateMessage ''C'' 2024 1 14, dateMessage ''A'' 2024 1 15,
                 dateMessage ''B'' 2024 1 15]) 0
     (instant 2024 1 15 noon)
   = Some \<lparr>aText = ''C'', daysUntil = Fin (- 1),
           triggerLabel = DateOf \<lparr>year = 2024, month = 1, dayOfMonth = 14\<rparr>\<rparr>"
  by code_simp

text \<open>
  Claim C10. The resolver considers only messages whose \<^verbatim>\<open>triggerType\<close> is
  \<^verbatim>\<open>'date'\<close>: the result is the result on the list without the other messages, whatever
  their text and trigger date, and it is none when no message has that trigger type.
\<close>

theorem resolver_ignores_non_date_triggers:
  "getActiveMessage (tm\<lparr>messages := filter (\<lambda>m. triggerType m = Some ''date'') (messages tm)\<rparr>)
       td now
     = getActiveMessage tm td now
   \<and> ((\<forall>m \<in> set (messages tm). triggerType m \<noteq> Some ''date'')
        \<longrightarrow> getActiveMessage tm td now = None)"
proof (intro conjI impI)
  show "getActiveMessage
          (tm\<lparr>messages := filter (\<lambda>m. triggerType m = Some ''date'') (messages tm)\<rparr>) td now
        = getActiveMessage tm td now"
    by (rule getActiveMessage_filter) (simp add: messageStep_def)
next
  assume "\<forall>m \<in> set (messages tm). triggerType m \<noteq> Some ''date''"
  then show "getActiveMessage tm td now = None"
    by (simp add: getActiveMessage_None_iff eligible_def)
qed

theorem resolver_ignores_non_date_triggers_witness:
  "messages (timerWith [untypedMessage]) = [untypedMessage]
   \<and> triggerType untypedMessage \<noteq> Some ''date''
   \<and> getActiveMessage (timerWith [untypedMessage]) 0 (instant 2024 1 15 noon) = None"
proof -
  have m: "messages (timerWith [untypedMessage]) = [untypedMessage]"
    by (simp add: timerWith_def)
  have t: "triggerType untypedMessage \<noteq> Some ''date''"
    by (simp add: untypedMessage_def)
  from resolver_ignores_non_date_triggers
         [of "timerWith [untypedMessage]" 0 "instant 2024 1 15 noon"] m t
  show ?thesis by simp
qed

end
